theory Spec2Isabelle
  imports Main "HOL-Library.Word"
begin

section \<open>The free-space wiper of \<^verbatim>\<open>Prototype 2/danger.c\<close>\<close>

text \<open>
  The program fills the free space of a file system with temporary files, one per
  (pass, pattern), and removes each of them again. Everything the C code asks of the
  outside world (\<^verbatim>\<open>statvfs\<close>, \<^verbatim>\<open>open\<close>, \<^verbatim>\<open>malloc\<close>, \<^verbatim>\<open>rand\<close>, the OpenSSL
  cipher, \<^verbatim>\<open>write\<close>, \<^verbatim>\<open>remove\<close>, \<^verbatim>\<open>time\<close>) is an oracle of the record
  \<open>env\<close>; everything the code does to the outside world is an \<open>event\<close> appended to the
  trace of the \<open>state\<close>. The functions below follow the C functions statement by
  statement.
\<close>

subsection \<open>Machine types\<close>

type_synonym byte = "8 word"    \<comment> \<open>\<^verbatim>\<open>unsigned char\<close>\<close>
type_synonym size_t = "64 word" \<comment> \<open>\<^verbatim>\<open>size_t\<close>, \<^verbatim>\<open>unsigned long long\<close> (LP64)\<close>

text \<open>The conversion \<^verbatim>\<open>(int)len\<close> of a \<^verbatim>\<open>size_t\<close>: the low 32 bits, read as two's complement.\<close>

definition int_of_size :: "nat \<Rightarrow> int" where
  "int_of_size len = sint (of_nat len :: 32 word)"

subsection \<open>The outside world\<close>

datatype oflag = O_RDONLY | O_WRONLY | O_RDWR | O_CREAT | O_EXCL | O_TRUNC | O_APPEND

datatype event =
    Log string                          \<comment> \<open>\<^verbatim>\<open>LOG(fmt, ...)\<close>: the formatted message on stdout\<close>
  | Err string                          \<comment> \<open>\<^verbatim>\<open>ERR(fmt, ...)\<close>: the message on stderr (errno text left out)\<close>
  | Printf string                       \<comment> \<open>\<^verbatim>\<open>printf\<close> of the usage text\<close>
  | Srand nat                           \<comment> \<open>\<^verbatim>\<open>srand(seed)\<close>\<close>
  | Statvfs string                      \<comment> \<open>\<^verbatim>\<open>statvfs(path, &fs)\<close>\<close>
  | Open string "oflag list" nat int    \<comment> \<open>\<^verbatim>\<open>open(filename, flags, mode)\<close> and the descriptor returned\<close>
  | Memcpy nat nat                      \<comment> \<open>\<^verbatim>\<open>memcpy(buf, outbuf, n)\<close>: \<open>n\<close> and the capacity of \<open>buf\<close>\<close>
  | Write int "byte list" nat int       \<comment> \<open>\<^verbatim>\<open>write(fd, buf, count)\<close> and its result\<close>
  | Close int                           \<comment> \<open>\<^verbatim>\<open>close(fd)\<close>\<close>
  | Remove string int                   \<comment> \<open>\<^verbatim>\<open>remove(filename)\<close> and its result\<close>

text \<open>
  The four OpenSSL calls of \<open>encrypt_chunk\<close>, as the library answers them for one chunk:
  whether \<^verbatim>\<open>EVP_CIPHER_CTX_new\<close> returns a context, whether \<^verbatim>\<open>EVP_EncryptInit_ex\<close>
  returns 1 for a key and an IV, and the bytes \<^verbatim>\<open>EVP_EncryptUpdate\<close> and
  \<^verbatim>\<open>EVP_EncryptFinal_ex\<close> write (\<open>None\<close> when they do not return 1), given the key, the
  IV, the input and its length as an \<^verbatim>\<open>int\<close>.
\<close>

record evp_lib =
  ctx_new_ok :: bool
  init_ok :: "byte list \<Rightarrow> byte list \<Rightarrow> bool"
  update_r :: "byte list \<Rightarrow> byte list \<Rightarrow> byte list \<Rightarrow> int \<Rightarrow> byte list option"
  final_r :: "byte list \<Rightarrow> byte list \<Rightarrow> byte list \<Rightarrow> int \<Rightarrow> byte list option"

text \<open>
  The answers of the system calls. Calls inside an iteration are named by the pass \<open>p\<close>
  and the pattern index \<open>pat\<close>, calls inside the write loop also by the number \<open>k\<close> of
  the chunk (from 0): each such call happens at most once in a run.
  \<^item> \<open>statvfs_r path\<close>: \<open>None\<close> when \<^verbatim>\<open>statvfs\<close> fails, else \<^verbatim>\<open>f_bsize\<close> and \<^verbatim>\<open>f_bavail\<close>;
  \<^item> \<open>open_r p pat\<close>: the descriptor, negative on failure;
  \<^item> \<open>malloc_r p pat i\<close>: \<open>None\<close> for \<^verbatim>\<open>NULL\<close>, else the uninitialised contents of the
    block, byte by byte (\<open>i = 0\<close> for \<^verbatim>\<open>buf\<close>, \<open>i = 1\<close> for \<^verbatim>\<open>outbuf\<close>);
  \<^item> \<open>rand_r seed n\<close>: what the \<open>n\<close>-th call of \<^verbatim>\<open>rand()\<close> returns after \<^verbatim>\<open>srand(seed)\<close>;
  \<^item> \<open>evp_r p pat k\<close>: the cipher library at chunk \<open>k\<close>;
  \<^item> \<open>write_r p pat k\<close>: the result of the \<open>k\<close>-th \<^verbatim>\<open>write\<close> of the iteration;
  \<^item> \<open>remove_r p pat\<close>: the result of \<^verbatim>\<open>remove\<close> (0 on success);
  \<^item> \<open>time_r\<close>: \<^verbatim>\<open>time(NULL)\<close>.
\<close>

record env =
  statvfs_r :: "string \<Rightarrow> (size_t \<times> size_t) option"
  open_r :: "nat \<Rightarrow> nat \<Rightarrow> int"
  malloc_r :: "nat \<Rightarrow> nat \<Rightarrow> nat \<Rightarrow> (nat \<Rightarrow> byte) option"
  rand_r :: "nat \<Rightarrow> nat \<Rightarrow> nat"
  evp_r :: "nat \<Rightarrow> nat \<Rightarrow> nat \<Rightarrow> evp_lib"
  write_r :: "nat \<Rightarrow> nat \<Rightarrow> nat \<Rightarrow> int"
  remove_r :: "nat \<Rightarrow> nat \<Rightarrow> int"
  time_r :: nat

text \<open>
  The state the program changes: the generator behind \<^verbatim>\<open>rand()\<close> (its seed and the
  number of calls since), the files that exist, and the trace of events so far.
\<close>

record state =
  rng_seed :: nat
  rng_pos :: nat
  files :: "string set"
  trace :: "event list"

definition emit :: "event \<Rightarrow> state \<Rightarrow> state" where
  "emit ev s = s\<lparr>trace := trace s @ [ev]\<rparr>"

definition LOG :: "string \<Rightarrow> state \<Rightarrow> state" where
  "LOG msg s = emit (Log msg) s"

definition ERR :: "string \<Rightarrow> state \<Rightarrow> state" where
  "ERR msg s = emit (Err msg) s"

definition srand :: "nat \<Rightarrow> state \<Rightarrow> state" where
  "srand seed s = emit (Srand seed) (s\<lparr>rng_seed := seed, rng_pos := 0\<rparr>)"

definition rand :: "env \<Rightarrow> state \<Rightarrow> nat \<times> state" where
  "rand e s = (rand_r e (rng_seed s) (rng_pos s), s\<lparr>rng_pos := rng_pos s + 1\<rparr>)"

text \<open>\<^verbatim>\<open>open\<close> with \<^verbatim>\<open>O_CREAT\<close>: when it succeeds the file exists.\<close>

definition sys_open :: "string \<Rightarrow> oflag list \<Rightarrow> nat \<Rightarrow> int \<Rightarrow> state \<Rightarrow> state" where
  "sys_open filename flags mode fd s =
     emit (Open filename flags mode fd)
       (if 0 \<le> fd \<and> O_CREAT \<in> set flags then s\<lparr>files := insert filename (files s)\<rparr> else s)"

definition sys_close :: "int \<Rightarrow> state \<Rightarrow> state" where
  "sys_close fd s = emit (Close fd) s"

text \<open>\<^verbatim>\<open>remove\<close>: when it returns 0 the file is gone, otherwise nothing changes.\<close>

definition sys_remove :: "string \<Rightarrow> int \<Rightarrow> state \<Rightarrow> state" where
  "sys_remove filename r s =
     emit (Remove filename r) (if r = 0 then s\<lparr>files := files s - {filename}\<rparr> else s)"

subsection \<open>Buffers\<close>

text \<open>
  A buffer is the list of its bytes; its length is its allocated capacity.
  \<open>store_bytes dst src\<close> writes \<open>src\<close> from offset 0: the bytes that fit replace the
  front of \<open>dst\<close>; bytes beyond the capacity land outside the buffer and are not part
  of it (in C this is a write past the end of the allocation).
\<close>

definition store_bytes :: "byte list \<Rightarrow> byte list \<Rightarrow> byte list" where
  "store_bytes dst src = take (length dst) src @ drop (length src) dst"

definition store_at :: "byte list \<Rightarrow> nat \<Rightarrow> byte list \<Rightarrow> byte list" where
  "store_at dst off src = take off dst @ store_bytes (drop off dst) src"

definition memset :: "byte list \<Rightarrow> byte \<Rightarrow> nat \<Rightarrow> byte list" where
  "memset dst c n = store_bytes dst (replicate n c)"

definition memcpy :: "byte list \<Rightarrow> byte list \<Rightarrow> nat \<Rightarrow> byte list" where
  "memcpy dst src n = store_bytes dst (take n src)"

text \<open>\<^verbatim>\<open>for (i = 0; i < n; i++) b[i] = rand() % 256;\<close> : the \<open>n\<close> bytes drawn, in order.\<close>

fun rand_bytes :: "env \<Rightarrow> nat \<Rightarrow> state \<Rightarrow> byte list \<times> state" where
  "rand_bytes e 0 s = ([], s)"
| "rand_bytes e (Suc n) s =
     (let (r, s1) = rand e s;
          (bs, s2) = rand_bytes e n s1
      in (of_nat (r mod 256) # bs, s2))"

subsection \<open>Formatting\<close>

function dec_str :: "nat \<Rightarrow> string" where
  "dec_str n = (if n < 10 then [''0123456789'' ! n]
                else dec_str (n div 10) @ [''0123456789'' ! (n mod 10)])"
  by pat_completeness auto
termination
  by (relation "measure id") auto

declare dec_str.simps [simp del]

text \<open>\<^verbatim>\<open>%d\<close> of an \<^verbatim>\<open>int\<close>.\<close>

definition dec_int :: "int \<Rightarrow> string" where
  "dec_int i = (if i < 0 then ''-'' @ dec_str (nat (- i)) else dec_str (nat i))"

text \<open>
  \<^verbatim>\<open>snprintf(filename, sizeof(filename), "%s/shred_temp_%d_%d.dat", path, p, pat)\<close> with
  \<^verbatim>\<open>char filename[256]\<close>: at most 255 characters are kept.
\<close>

definition temp_filename :: "string \<Rightarrow> nat \<Rightarrow> nat \<Rightarrow> string" where
  "temp_filename path p pat =
     take 255 (path @ ''/shred_temp_'' @ dec_int (int p) @ ''_'' @ dec_int (int pat) @ ''.dat'')"

subsection \<open>Encryption\<close>

text \<open>
  \<open>encrypt_chunk\<close> returns the \<^verbatim>\<open>int\<close> of the C function and the contents of \<^verbatim>\<open>out\<close>
  afterwards. \<^verbatim>\<open>EVP_EncryptUpdate\<close> writes its \<open>outlen1\<close> bytes at \<^verbatim>\<open>out\<close>,
  \<^verbatim>\<open>EVP_EncryptFinal_ex\<close> its \<open>outlen2\<close> bytes at \<^verbatim>\<open>out + outlen1\<close>.
\<close>

definition encrypt_chunk ::
  "evp_lib \<Rightarrow> byte list \<Rightarrow> nat \<Rightarrow> byte list \<Rightarrow> byte list \<Rightarrow> byte list \<Rightarrow> int \<times> byte list" where
  "encrypt_chunk lib data len out key iv =
     (if \<not> ctx_new_ok lib then (- 1, out)
      else if \<not> init_ok lib key iv then (- 1, out)
      else (case update_r lib key iv data (int_of_size len) of
              None \<Rightarrow> (- 1, out)
            | Some c1 \<Rightarrow>
                (let outlen1 = int (length c1);
                     out1 = store_bytes out c1
                 in (case final_r lib key iv data (int_of_size len) of
                       None \<Rightarrow> (- 1, out1)
                     | Some c2 \<Rightarrow>
                         (let outlen2 = int (length c2)
                          in (outlen1 + outlen2, store_at out1 (length c1) c2))))))"

subsection \<open>The chunk generator\<close>

definition patterns :: "string list" where
  "patterns = [''zeros'', ''ones'', ''random'', ''encrypted'']"

text \<open>
  Lines 69 to 82: the body of the write loop before the \<^verbatim>\<open>write\<close>. It returns \<^verbatim>\<open>buf\<close>,
  \<^verbatim>\<open>outbuf\<close> and the state. The \<^verbatim>\<open>memcpy\<close> is recorded with the number of bytes it
  copies and the capacity of \<^verbatim>\<open>buf\<close>.
\<close>

definition gen_chunk ::
  "env \<Rightarrow> nat \<Rightarrow> nat \<Rightarrow> nat \<Rightarrow> nat \<Rightarrow> byte list \<Rightarrow> byte list \<Rightarrow> state
     \<Rightarrow> byte list \<times> byte list \<times> state" where
  "gen_chunk e chunk_size p pat k buf outbuf s =
     (if patterns ! pat = ''zeros'' then (memset buf 0x00 chunk_size, outbuf, s)
      else if patterns ! pat = ''ones'' then (memset buf 0xFF chunk_size, outbuf, s)
      else if patterns ! pat = ''random'' then
        (let (bs, s1) = rand_bytes e chunk_size s in (store_bytes buf bs, outbuf, s1))
      else if patterns ! pat = ''encrypted'' then
        (let (bs, s1) = rand_bytes e chunk_size s;
             buf1 = store_bytes buf bs;
             (key, s2) = rand_bytes e 32 s1;
             (iv, s3) = rand_bytes e 16 s2;
             (enc_size, outbuf1) = encrypt_chunk (evp_r e p pat k) buf1 chunk_size outbuf key iv
         in if enc_size > 0
            then (memcpy buf1 outbuf1 (nat enc_size), outbuf1,
                  emit (Memcpy (nat enc_size) (length buf1)) s3)
            else (buf1, outbuf1, s3))
      else (buf, outbuf, s))"

subsection \<open>The write loop\<close>

text \<open>
  Lines 67 to 89. \<^verbatim>\<open>while (1)\<close> ends only at a \<^verbatim>\<open>write\<close> that returns 0 or less, so the
  loop is a partial function: \<open>None\<close> is a loop that never ends. It returns \<^verbatim>\<open>written\<close>
  and the state. \<^verbatim>\<open>written += w\<close> adds the \<^verbatim>\<open>ssize_t\<close> to a \<^verbatim>\<open>size_t\<close>.
\<close>

partial_function (option) write_loop ::
  "env \<Rightarrow> nat \<Rightarrow> nat \<Rightarrow> nat \<Rightarrow> int \<Rightarrow> nat \<Rightarrow> byte list \<Rightarrow> byte list \<Rightarrow> size_t \<Rightarrow> state
     \<Rightarrow> (size_t \<times> state) option" where
  "write_loop e chunk_size p pat fd k buf outbuf written s =
     (case gen_chunk e chunk_size p pat k buf outbuf s of
        (buf1, outbuf1, s1) \<Rightarrow>
          (let w = write_r e p pat k;
               s2 = emit (Write fd buf1 chunk_size w) s1
           in if w \<le> 0 then Some (written, s2)
              else write_loop e chunk_size p pat fd (k + 1) buf1 outbuf1 (written + of_int w) s2))"

subsection \<open>One (pass, pattern) iteration\<close>

text \<open>
  Lines 46 to 102, the body of the inner \<^verbatim>\<open>for\<close>; \<open>open_temp\<close> is lines 46 to 51.
  Both \<^verbatim>\<open>continue\<close> statements end the iteration. \<^verbatim>\<open>free\<close> leaves nothing to observe
  and is not recorded. \<open>chunk_size\<close> is a \<^verbatim>\<open>size_t\<close> value, and the size of \<^verbatim>\<open>outbuf\<close> is
  \<^verbatim>\<open>chunk_size + 32\<close> in \<^verbatim>\<open>size_t\<close>. The mode \<^verbatim>\<open>0600\<close> is octal: 384.
\<close>

definition open_temp :: "env \<Rightarrow> string \<Rightarrow> nat \<Rightarrow> nat \<Rightarrow> state \<Rightarrow> string \<times> int \<times> state" where
  "open_temp e path p pat s =
     (let filename = temp_filename path p pat;
          s1 = LOG (''Writing pattern: '' @ patterns ! pat @ '' -> '' @ filename) s;
          fd = open_r e p pat
      in (filename, fd, sys_open filename [O_CREAT, O_WRONLY, O_TRUNC] 384 fd s1))"

definition iteration :: "env \<Rightarrow> string \<Rightarrow> nat \<Rightarrow> nat \<Rightarrow> nat \<Rightarrow> state \<Rightarrow> state option" where
  "iteration e path chunk_size p pat s =
     (case open_temp e path p pat s of
        (filename, fd, s2) \<Rightarrow>
          if fd < 0 then Some (ERR ''Failed to open temp file'' s2)
          else (case (malloc_r e p pat 0, malloc_r e p pat 1) of
                  (Some b, Some ob) \<Rightarrow>
                    (case write_loop e chunk_size p pat fd 0
                            (map b [0..<chunk_size])
                            (map ob [0..<(chunk_size + 32) mod 2 ^ 64]) 0 s2 of
                       None \<Rightarrow> None
                     | Some (written, s3) \<Rightarrow>
                         (let s4 = LOG (''Wrote '' @ dec_str (unat (written div (1024 * 1024))) @ '' MB'') s3;
                              s5 = sys_close fd s4;
                              r = remove_r e p pat;
                              s6 = sys_remove filename r s5
                          in if r \<noteq> 0 then Some (ERR ''Failed to remove temp file'' s6)
                             else Some (LOG (''Removed '' @ filename) s6)))
                | _ \<Rightarrow> Some (sys_close fd (ERR ''Memory allocation failed'' s2))))"

subsection \<open>The passes\<close>

text \<open>\<^verbatim>\<open>for (int pat = 0; pat < 4; pat++)\<close> of line 45.\<close>

function pat_loop :: "env \<Rightarrow> string \<Rightarrow> nat \<Rightarrow> nat \<Rightarrow> nat \<Rightarrow> state \<Rightarrow> state option" where
  "pat_loop e path chunk_size p pat s =
     (if pat < 4
      then (case iteration e path chunk_size p pat s of
              None \<Rightarrow> None
            | Some s' \<Rightarrow> pat_loop e path chunk_size p (pat + 1) s')
      else Some s)"
  by pat_completeness auto
termination
  by (relation "measure (\<lambda>(e, path, chunk_size, p, pat, s). 4 - pat)") auto

declare pat_loop.simps [simp del]

text \<open>\<^verbatim>\<open>for (int p = 0; p < passes; p++)\<close> of line 41, with the log line of each pass.\<close>

function pass_loop :: "env \<Rightarrow> string \<Rightarrow> int \<Rightarrow> nat \<Rightarrow> nat \<Rightarrow> state \<Rightarrow> state option" where
  "pass_loop e path passes chunk_size p s =
     (if int p < passes
      then (let s1 = LOG (''=== Pass '' @ dec_int (int p + 1) @ ''/'' @ dec_int passes @ '' ==='') s
            in (case pat_loop e path chunk_size p 0 s1 of
                  None \<Rightarrow> None
                | Some s' \<Rightarrow> pass_loop e path passes chunk_size (p + 1) s'))
      else Some s)"
  by pat_completeness auto
termination
  by (relation "measure (\<lambda>(e, path, passes, chunk_size, p, s). nat (passes - int p))") auto

declare pass_loop.simps [simp del]

subsection \<open>\<^verbatim>\<open>wipe_free_space\<close> and \<^verbatim>\<open>main\<close>\<close>

text \<open>
  \<^verbatim>\<open>free_space = fs.f_bsize * fs.f_bavail\<close> is a product of 64-bit unsigned values. The
  last log line starts with the three bytes of a UTF-8 check mark.
\<close>

definition wipe_free_space :: "env \<Rightarrow> string \<Rightarrow> int \<Rightarrow> nat \<Rightarrow> state \<Rightarrow> state option" where
  "wipe_free_space e path passes chunk_size s =
     (let s0 = emit (Statvfs path) s
      in (case statvfs_r e path of
            None \<Rightarrow> Some (ERR ''statvfs failed'' s0)
          | Some (f_bsize, f_bavail) \<Rightarrow>
              (let free_space = f_bsize * f_bavail;
                   s1 = LOG (''Detected free space: '' @ dec_str (unat (free_space div (1024 * 1024))) @ '' MB'') s0
               in (case pass_loop e path passes chunk_size 0 s1 of
                     None \<Rightarrow> None
                   | Some s2 \<Rightarrow>
                       Some (LOG ([CHR 0xE2, CHR 0x9C, CHR 0x85] @ '' Free space wipe complete.'') s2)))))"

text \<open>
  \<^verbatim>\<open>atoi\<close> of the C library is \<^verbatim>\<open>(int) strtol(str, NULL, 10)\<close>. \<open>strtol\<close> skips white
  space, then reads an optional sign and the decimal digits that follow; with no digit
  the value is 0, and a value outside \<^verbatim>\<open>long\<close> (64 bits) is replaced by the nearest
  bound. The conversion to \<^verbatim>\<open>int\<close> keeps the low 32 bits, read as two's complement.
\<close>

definition isspace :: "char \<Rightarrow> bool" where
  "isspace c = (c \<in> set [CHR '' '', CHR 0x09, CHR 0x0A, CHR 0x0B, CHR 0x0C, CHR 0x0D])"

definition isdigit :: "char \<Rightarrow> bool" where
  "isdigit c = (48 \<le> (of_char c :: nat) \<and> (of_char c :: nat) \<le> 57)"

fun digits_val :: "int \<Rightarrow> string \<Rightarrow> int" where
  "digits_val acc [] = acc"
| "digits_val acc (c # cs) =
     (if isdigit c then digits_val (10 * acc + (int (of_char c) - 48)) cs else acc)"

definition strtol :: "string \<Rightarrow> int" where
  "strtol str =
     (let v = (case dropWhile isspace str of
                 [] \<Rightarrow> 0
               | c # cs \<Rightarrow>
                   if c = CHR ''-'' then - digits_val 0 cs
                   else if c = CHR ''+'' then digits_val 0 cs
                   else digits_val 0 (c # cs))
      in if v < - (2 ^ 63) then - (2 ^ 63)
         else if 2 ^ 63 - 1 < v then 2 ^ 63 - 1
         else v)"

definition atoi :: "string \<Rightarrow> int" where
  "atoi str = sint (word_of_int (strtol str) :: 32 word)"

text \<open>
  \<open>main\<close> gets \<^verbatim>\<open>argv\<close> as a list (\<^verbatim>\<open>argc\<close> is its length) and returns the exit status
  and the state. \<^verbatim>\<open>printf("%s", argv[0])\<close> with no \<^verbatim>\<open>argv[0]\<close> prints \<^verbatim>\<open>(null)\<close>. The seed is
  \<^verbatim>\<open>(unsigned int)time(NULL)\<close>: the low 32 bits of the time.
\<close>

definition usage :: "string \<Rightarrow> state \<Rightarrow> state" where
  "usage prog s =
     emit (Printf (''Example (Windows): '' @ prog @ '' C:/ 3''))
       (emit (Printf (''Example (Linux):   sudo '' @ prog @ '' / 3''))
          (emit (Printf (''Usage: '' @ prog @ '' <path> [passes]'')) s))"

definition main :: "env \<Rightarrow> string list \<Rightarrow> state \<Rightarrow> (int \<times> state) option" where
  "main e argv s =
     (if length argv < 2 then Some (1, usage (case argv of [] \<Rightarrow> ''(null)'' | a # _ \<Rightarrow> a) s)
      else (let path = argv ! 1;
                passes = (if length argv > 2 then atoi (argv ! 2) else 3);
                chunk_size = 512 * 1024 * 1024;
                s1 = srand (time_r e mod 2 ^ 32) s
            in (case wipe_free_space e path passes chunk_size s1 of
                  None \<Rightarrow> None
                | Some s2 \<Rightarrow> Some (0, s2))))"

text \<open>The state a process starts in: \<^verbatim>\<open>rand\<close> behaves as after \<^verbatim>\<open>srand(1)\<close>.\<close>

definition start :: "string set \<Rightarrow> state" where
  "start fs = \<lparr>rng_seed = 1, rng_pos = 0, files = fs, trace = []\<rparr>"

subsection \<open>Reading a trace\<close>

text \<open>
  What a trace says: the names passed to \<^verbatim>\<open>open\<close>, the buffers passed to \<^verbatim>\<open>write\<close>,
  the names passed to \<^verbatim>\<open>remove\<close>, and the \<^verbatim>\<open>memcpy\<close> calls, each in order.
\<close>

definition opened :: "event list \<Rightarrow> string list" where
  "opened tr = concat (map (\<lambda>ev. case ev of Open f fl m fd \<Rightarrow> [f] | _ \<Rightarrow> []) tr)"

definition written_bufs :: "event list \<Rightarrow> byte list list" where
  "written_bufs tr = concat (map (\<lambda>ev. case ev of Write fd b n w \<Rightarrow> [b] | _ \<Rightarrow> []) tr)"

definition removed :: "event list \<Rightarrow> string list" where
  "removed tr = concat (map (\<lambda>ev. case ev of Remove f r \<Rightarrow> [f] | _ \<Rightarrow> []) tr)"

definition copies :: "event list \<Rightarrow> (nat \<times> nat) list" where
  "copies tr = concat (map (\<lambda>ev. case ev of Memcpy n cap \<Rightarrow> [(n, cap)] | _ \<Rightarrow> []) tr)"

subsection \<open>Concrete environments\<close>

text \<open>
  A cipher library that always succeeds and answers with the output lengths of
  AES-256-CBC with PKCS padding: \<^verbatim>\<open>EVP_EncryptUpdate\<close> writes the whole 16-byte blocks of
  the input, \<^verbatim>\<open>EVP_EncryptFinal_ex\<close> one more block. (The bytes themselves stand for the
  ciphertext; only their number matters below.)
\<close>

definition lib_cbc :: evp_lib where
  "lib_cbc =
     \<lparr>ctx_new_ok = True,
      init_ok = (\<lambda>key iv. True),
      update_r = (\<lambda>key iv data inl. if inl < 0 then None else Some (replicate (nat inl div 16 * 16) 0xC5)),
      final_r = (\<lambda>key iv data inl. Some (replicate 16 0xC6))\<rparr>"

text \<open>A cipher library whose \<^verbatim>\<open>EVP_EncryptUpdate\<close> fails.\<close>

definition lib_update_fails :: evp_lib where
  "lib_update_fails = lib_cbc\<lparr>update_r := (\<lambda>key iv data inl. None)\<rparr>"

text \<open>
  An environment in which everything succeeds, and each file takes two chunks of 16
  bytes before the disk is full; \<^verbatim>\<open>rand()\<close> counts up from the seed.
\<close>

definition test_env :: env where
  "test_env =
     \<lparr>statvfs_r = (\<lambda>path. Some (4096, 256000)),
      open_r = (\<lambda>p pat. 3),
      malloc_r = (\<lambda>p pat i. Some (\<lambda>j. 0)),
      rand_r = (\<lambda>seed n. seed + n),
      evp_r = (\<lambda>p pat k. lib_cbc),
      write_r = (\<lambda>p pat k. if k < 2 then 16 else - 1),
      remove_r = (\<lambda>p pat. 0),
      time_r = 1700000000\<rparr>"

text \<open>
  What the OpenSSL documentation promises of a cipher library for AES-256-CBC with
  padding when nothing fails: every call succeeds, \<^verbatim>\<open>EVP_EncryptUpdate\<close> writes the whole
  blocks of its input and \<^verbatim>\<open>EVP_EncryptFinal_ex\<close> writes one block of 16 bytes.
\<close>

definition cbc_lengths :: "evp_lib \<Rightarrow> bool" where
  "cbc_lengths lib \<longleftrightarrow>
     ctx_new_ok lib \<and> (\<forall>key iv. init_ok lib key iv)
     \<and> (\<forall>key iv data inl. 0 \<le> inl \<longrightarrow>
           (\<exists>c1. update_r lib key iv data inl = Some c1 \<and> length c1 = nat inl div 16 * 16))
     \<and> (\<forall>key iv data inl. \<exists>c2. final_r lib key iv data inl = Some c2 \<and> length c2 = 16)"

text \<open>
  Variants of \<open>test_env\<close>: one whose cipher fails at every chunk (chunks of 4 bytes, the
  second \<^verbatim>\<open>write\<close> returns 0), one with no memory left, one whose \<^verbatim>\<open>statvfs\<close> fails.
\<close>

definition env_cipher_fails :: env where
  "env_cipher_fails =
     test_env\<lparr>evp_r := (\<lambda>p pat k. lib_update_fails),
              write_r := (\<lambda>p pat k. if k < 1 then 4 else 0)\<rparr>"

definition env_no_memory :: env where
  "env_no_memory = test_env\<lparr>malloc_r := (\<lambda>p pat i. None)\<rparr>"

definition env_no_statvfs :: env where
  "env_no_statvfs = test_env\<lparr>statvfs_r := (\<lambda>path. None)\<rparr>"

section \<open>Basic facts\<close>

lemma length_store_bytes [simp]: "length (store_bytes dst src) = length dst"
  by (simp add: store_bytes_def)

lemma store_bytes_full: "length src = length dst \<Longrightarrow> store_bytes dst src = src"
  by (simp add: store_bytes_def)

lemma rand_bytes_closed:
  "rand_bytes e n s =
     (map (\<lambda>i. of_nat (rand_r e (rng_seed s) (rng_pos s + i) mod 256)) [0..<n],
      s\<lparr>rng_pos := rng_pos s + n\<rparr>)"
proof (induction n arbitrary: s)
  case 0
  show ?case by simp
next
  case (Suc n)
  have "[0..<Suc n] = 0 # map Suc [0..<n]"
    by (simp add: upt_conv_Cons map_Suc_upt del: upt_Suc)
  then show ?case
    by (simp add: Suc rand_def o_def del: upt_Suc)
qed

lemma length_rand_bytes [simp]: "length (fst (rand_bytes e n s)) = n"
  by (simp add: rand_bytes_closed)

lemma trace_rand_bytes [simp]: "trace (snd (rand_bytes e n s)) = trace s"
  by (simp add: rand_bytes_closed)

lemma files_rand_bytes [simp]: "files (snd (rand_bytes e n s)) = files s"
  by (simp add: rand_bytes_closed)

lemma patterns_nth [simp]:
  "patterns ! 0 = ''zeros''" "patterns ! Suc 0 = ''ones''"
  "patterns ! 2 = ''random''" "patterns ! 3 = ''encrypted''"
  by (simp_all add: patterns_def)

lemma write_loop_stop:
  "write_r e p pat k \<le> 0 \<Longrightarrow>
   write_loop e chunk_size p pat fd k buf outbuf written s =
     (case gen_chunk e chunk_size p pat k buf outbuf s of
        (buf1, outbuf1, s1) \<Rightarrow>
          Some (written, emit (Write fd buf1 chunk_size (write_r e p pat k)) s1))"
  by (subst write_loop.simps) (simp add: Let_def split: prod.splits)

lemma write_loop_step:
  "0 < write_r e p pat k \<Longrightarrow>
   write_loop e chunk_size p pat fd k buf outbuf written s =
     (case gen_chunk e chunk_size p pat k buf outbuf s of
        (buf1, outbuf1, s1) \<Rightarrow>
          write_loop e chunk_size p pat fd (k + 1) buf1 outbuf1
            (written + of_int (write_r e p pat k))
            (emit (Write fd buf1 chunk_size (write_r e p pat k)) s1))"
  by (subst write_loop.simps) (simp add: Let_def split: prod.splits)


lemma opened_append [simp]: "opened (a @ b) = opened a @ opened b"
  by (simp add: opened_def)

lemma written_bufs_append [simp]: "written_bufs (a @ b) = written_bufs a @ written_bufs b"
  by (simp add: written_bufs_def)

lemma removed_append [simp]: "removed (a @ b) = removed a @ removed b"
  by (simp add: removed_def)

lemma copies_append [simp]: "copies (a @ b) = copies a @ copies b"
  by (simp add: copies_def)

lemma observers_Cons [simp]:
  "opened (Open f fl m fd # tr) = f # opened tr" "opened (Log msg # tr) = opened tr"
  "opened (Err msg # tr) = opened tr" "opened (Memcpy n cap # tr) = opened tr"
  "opened (Write fd b n w # tr) = opened tr" "opened (Close fd # tr) = opened tr"
  "opened (Remove f r # tr) = opened tr" "opened (Statvfs f # tr) = opened tr"
  "opened (Srand n # tr) = opened tr" "opened (Printf msg # tr) = opened tr"
  "written_bufs (Open f fl m fd # tr) = written_bufs tr" "written_bufs (Log msg # tr) = written_bufs tr"
  "written_bufs (Err msg # tr) = written_bufs tr" "written_bufs (Memcpy n cap # tr) = written_bufs tr"
  "written_bufs (Write fd b n w # tr) = b # written_bufs tr" "written_bufs (Close fd # tr) = written_bufs tr"
  "written_bufs (Remove f r # tr) = written_bufs tr" "written_bufs (Statvfs f # tr) = written_bufs tr"
  "written_bufs (Srand n # tr) = written_bufs tr" "written_bufs (Printf msg # tr) = written_bufs tr"
  "removed (Open f fl m fd # tr) = removed tr" "removed (Log msg # tr) = removed tr"
  "removed (Err msg # tr) = removed tr" "removed (Memcpy n cap # tr) = removed tr"
  "removed (Write fd b n w # tr) = removed tr" "removed (Close fd # tr) = removed tr"
  "removed (Remove f r # tr) = f # removed tr" "removed (Statvfs f # tr) = removed tr"
  "removed (Srand n # tr) = removed tr" "removed (Printf msg # tr) = removed tr"
  "copies (Open f fl m fd # tr) = copies tr" "copies (Log msg # tr) = copies tr"
  "copies (Err msg # tr) = copies tr" "copies (Memcpy n cap # tr) = (n, cap) # copies tr"
  "copies (Write fd b n w # tr) = copies tr" "copies (Close fd # tr) = copies tr"
  "copies (Remove f r # tr) = copies tr" "copies (Statvfs f # tr) = copies tr"
  "copies (Srand n # tr) = copies tr" "copies (Printf msg # tr) = copies tr"
  "opened [] = []" "written_bufs [] = []" "removed [] = []" "copies [] = []"
  by (simp_all add: opened_def written_bufs_def removed_def copies_def)

lemma emit_simps [simp]:
  "trace (emit ev s) = trace s @ [ev]" "files (emit ev s) = files s"
  "rng_seed (emit ev s) = rng_seed s" "rng_pos (emit ev s) = rng_pos s"
  by (simp_all add: emit_def)

lemma gen_chunk_length:
  "gen_chunk e cs p pat k buf outbuf s = (buf1, outbuf1, s1) \<Longrightarrow> length buf1 = length buf"
  by (auto simp: gen_chunk_def memset_def memcpy_def Let_def split: if_splits prod.splits)

lemma gen_chunk_observed:
  assumes "gen_chunk e cs p pat k buf outbuf s = (buf1, outbuf1, s1)"
  shows "opened (trace s1) = opened (trace s)"
    and "written_bufs (trace s1) = written_bufs (trace s)"
    and "removed (trace s1) = removed (trace s)"
    and "files s1 = files s"
  using assms
  by (auto simp: gen_chunk_def Let_def rand_bytes_closed split: if_splits prod.splits)

lemma write_loop_terminates:
  "write_r e p pat (k + n) \<le> 0 \<Longrightarrow>
   \<exists>w s'. write_loop e cs p pat fd k buf outbuf written s = Some (w, s')
     \<and> opened (trace s') = opened (trace s)
     \<and> removed (trace s') = removed (trace s)
     \<and> files s' = files s"
proof (induction n arbitrary: k buf outbuf written s)
  case 0
  obtain buf1 outbuf1 s1 where g: "gen_chunk e cs p pat k buf outbuf s = (buf1, outbuf1, s1)"
    by (cases "gen_chunk e cs p pat k buf outbuf s") auto
  from 0 have "write_r e p pat k \<le> 0" by simp
  then show ?case
    by (simp add: write_loop_stop g gen_chunk_observed [OF g])
next
  case (Suc n)
  obtain buf1 outbuf1 s1 where g: "gen_chunk e cs p pat k buf outbuf s = (buf1, outbuf1, s1)"
    by (cases "gen_chunk e cs p pat k buf outbuf s") auto
  show ?case
  proof (cases "write_r e p pat k \<le> 0")
    case True
    then show ?thesis
      by (simp add: write_loop_stop g gen_chunk_observed [OF g])
  next
    case False
    from Suc.prems have "write_r e p pat ((k + 1) + n) \<le> 0" by simp
    from Suc.IH [OF this, of buf1 outbuf1 "written + of_int (write_r e p pat k)"
        "emit (Write fd buf1 cs (write_r e p pat k)) s1"]
    show ?thesis using False
      by (simp add: write_loop_step g gen_chunk_observed [OF g])
  qed
qed


lemma open_temp_observed:
  assumes "open_temp e path p pat s = (filename, fd, s2)"
  shows "filename = temp_filename path p pat" and "fd = open_r e p pat"
    and "opened (trace s2) = opened (trace s) @ [filename]"
    and "written_bufs (trace s2) = written_bufs (trace s)"
    and "removed (trace s2) = removed (trace s)"
    and "files s2 = (if 0 \<le> fd then insert filename (files s) else files s)"
  using assms
  by (auto simp: open_temp_def sys_open_def LOG_def Let_def)



lemma int_of_size_small: "n < 2 ^ 31 \<Longrightarrow> int_of_size n = int n"
proof -
  assume a: "n < 2 ^ 31"
  have "(of_nat n :: 32 word) = word_of_int (int n)"
    by simp
  then have "sint (of_nat n :: 32 word) = signed_take_bit 31 (int n)"
    by (simp only: sint_sbintrunc') simp
  also have "\<dots> = int n"
    using a by (intro signed_take_bit_int_eq_self) auto
  finally show ?thesis by (simp add: int_of_size_def)
qed

section \<open>The fixed patterns\<close>

text \<open>
  C7. A buffer generated under the pattern \<^verbatim>\<open>zeros\<close> (index 0) holds 0x00 in every byte,
  one generated under \<^verbatim>\<open>ones\<close> (index 1) holds 0xFF in every byte: with \<^verbatim>\<open>buf\<close> of
  capacity \<open>chunk_size\<close>, as \<^verbatim>\<open>malloc(chunk_size)\<close> gives it, the chunk generator leaves
  \<open>chunk_size\<close> bytes of that value and touches nothing else.
\<close>

theorem zeros_ones_buffers:
  assumes "length buf = chunk_size"
  shows "patterns ! 0 = ''zeros'' \<and> patterns ! 1 = ''ones''
       \<and> gen_chunk e chunk_size p 0 k buf outbuf s = (replicate chunk_size 0x00, outbuf, s)
       \<and> gen_chunk e chunk_size p 1 k buf outbuf s = (replicate chunk_size 0xFF, outbuf, s)"
  using assms
  by (simp add: gen_chunk_def memset_def store_bytes_full)

theorem zeros_ones_buffers_witness:
  "gen_chunk test_env 16 0 0 0 (replicate 16 0x55) [] (start {}) = (replicate 16 0x00, [], start {})
   \<and> gen_chunk test_env 16 0 1 0 (replicate 16 0x55) [] (start {}) = (replicate 16 0xFF, [], start {})"
  using zeros_ones_buffers [of "replicate 16 0x55" 16 test_env 0 0 "[]" "start {}"]
  by simp

text \<open>
  The same for every buffer a write loop of these two patterns passes to \<^verbatim>\<open>write\<close>,
  when the loop ends.
\<close>

lemma gen_chunk_fixed:
  assumes "pat < 2" and "length buf = chunk_size"
  shows "gen_chunk e chunk_size p pat k buf outbuf s
           = (replicate chunk_size (if pat = 0 then 0x00 else 0xFF), outbuf, s)"
proof -
  from assms(1) have "pat = 0 \<or> pat = 1" by auto
  with assms(2) show ?thesis
    by (auto simp: gen_chunk_def memset_def store_bytes_full)
qed

lemma write_loop_fixed_pattern:
  assumes "pat < 2"
  shows "length buf = chunk_size \<Longrightarrow> write_r e p pat (k + n) \<le> 0 \<Longrightarrow>
   \<exists>w s' m. write_loop e chunk_size p pat fd k buf outbuf written s = Some (w, s')
     \<and> written_bufs (trace s') = written_bufs (trace s)
          @ replicate m (replicate chunk_size (if pat = 0 then 0x00 else 0xFF))"
proof (induction n arbitrary: k buf written s)
  case 0
  let ?b = "replicate chunk_size (if pat = 0 then 0x00 else 0xFF :: byte)"
  let ?s1 = "emit (Write fd ?b chunk_size (write_r e p pat k)) s"
  from 0 have "write_r e p pat k \<le> 0" by simp
  then have "write_loop e chunk_size p pat fd k buf outbuf written s = Some (written, ?s1)"
    by (simp add: write_loop_stop gen_chunk_fixed [OF assms "0.prems"(1)])
  moreover have "written_bufs (trace ?s1) = written_bufs (trace s) @ replicate 1 ?b"
    by simp
  ultimately show ?case by blast
next
  case (Suc n)
  let ?b = "replicate chunk_size (if pat = 0 then 0x00 else 0xFF :: byte)"
  let ?s1 = "emit (Write fd ?b chunk_size (write_r e p pat k)) s"
  have g: "gen_chunk e chunk_size p pat k buf outbuf s = (?b, outbuf, s)"
    by (rule gen_chunk_fixed [OF assms Suc.prems(1)])
  have t: "written_bufs (trace ?s1) = written_bufs (trace s) @ replicate 1 ?b"
    by simp
  show ?case
  proof (cases "write_r e p pat k \<le> 0")
    case True
    then have "write_loop e chunk_size p pat fd k buf outbuf written s = Some (written, ?s1)"
      by (simp add: write_loop_stop g)
    with t show ?thesis by blast
  next
    case False
    have len: "length ?b = chunk_size" by simp
    from Suc.prems have "write_r e p pat ((k + 1) + n) \<le> 0" by simp
    from Suc.IH [OF len this, of "written + of_int (write_r e p pat k)" ?s1]
    obtain w s' m where
      l: "write_loop e chunk_size p pat fd (k + 1) ?b outbuf
            (written + of_int (write_r e p pat k)) ?s1 = Some (w, s')"
      and b: "written_bufs (trace s') = written_bufs (trace ?s1) @ replicate m ?b"
      by blast
    from False have "write_loop e chunk_size p pat fd k buf outbuf written s = Some (w, s')"
      by (simp add: write_loop_step g l [simplified])
    moreover from b have "written_bufs (trace s') = written_bufs (trace s) @ replicate (Suc m) ?b"
      by (simp add: replicate_app_Cons_same)
    ultimately show ?thesis by blast
  qed
qed

section \<open>The write loop\<close>



text \<open>
  C10. A \<^verbatim>\<open>write\<close> that returns \<open>w\<close> with \<open>0 < w < chunk_size\<close> does not end the loop:
  the loop goes on with the next chunk and with \<open>w\<close> added to \<^verbatim>\<open>written\<close>. If the next
  \<^verbatim>\<open>write\<close> then fails, the loop returns that total; \<open>w\<close> is no multiple of
  \<open>chunk_size\<close>, so the total of an iteration need not be one.
\<close>

theorem partial_write_continues:
  assumes w: "write_r e p pat k = w" and pos: "0 < w" and part: "w < int chunk_size"
    and g: "gen_chunk e chunk_size p pat k buf outbuf s = (buf1, outbuf1, s1)"
  shows "write_loop e chunk_size p pat fd k buf outbuf written s =
           write_loop e chunk_size p pat fd (k + 1) buf1 outbuf1 (written + of_int w)
             (emit (Write fd buf1 chunk_size w) s1)
       \<and> (write_r e p pat (k + 1) \<le> 0 \<longrightarrow>
            (\<exists>s'. write_loop e chunk_size p pat fd k buf outbuf written s
                     = Some (written + of_int w, s')))
       \<and> \<not> int chunk_size dvd w"
proof -
  from pos part have nd: "\<not> int chunk_size dvd w"
    by (meson zdvd_not_zless)
  from pos w have "0 < write_r e p pat k" by simp
  then have step: "write_loop e chunk_size p pat fd k buf outbuf written s =
           write_loop e chunk_size p pat fd (k + 1) buf1 outbuf1 (written + of_int w)
             (emit (Write fd buf1 chunk_size w) s1)"
    by (simp add: write_loop_step g w)
  have "\<exists>s'. write_loop e chunk_size p pat fd k buf outbuf written s
                     = Some (written + of_int w, s')"
    if stop: "write_r e p pat (k + 1) \<le> 0"
  proof -
    obtain buf2 outbuf2 s2 where
      g2: "gen_chunk e chunk_size p pat (k + 1) buf1 outbuf1 (emit (Write fd buf1 chunk_size w) s1)
             = (buf2, outbuf2, s2)"
      by (cases "gen_chunk e chunk_size p pat (k + 1) buf1 outbuf1 (emit (Write fd buf1 chunk_size w) s1)")
        auto
    show ?thesis
      by (simp only: step write_loop_stop [OF stop] g2 prod.case) blast
  qed
  with step nd show ?thesis by simp
qed

theorem partial_write_continues_witness:
  "write_loop (test_env\<lparr>write_r := (\<lambda>p pat k. if k = 0 then 5 else 0)\<rparr>) 16 0 0 3 0
      (replicate 16 0x55) [] 0 (start {}) =
   write_loop (test_env\<lparr>write_r := (\<lambda>p pat k. if k = 0 then 5 else 0)\<rparr>) 16 0 0 3 (0 + 1)
      (replicate 16 0x00) [] (0 + of_int 5) (emit (Write 3 (replicate 16 0x00) 16 5) (start {}))
   \<and> (\<exists>s'. write_loop (test_env\<lparr>write_r := (\<lambda>p pat k. if k = 0 then 5 else 0)\<rparr>) 16 0 0 3 0
              (replicate 16 0x55) [] 0 (start {}) = Some (0 + of_int 5, s'))
   \<and> \<not> int 16 dvd 5"
proof -
  let ?e = "test_env\<lparr>write_r := (\<lambda>p pat k. if k = 0 then 5 else 0)\<rparr>"
  have a: "write_r ?e 0 0 0 = 5" by simp
  have b: "(0::int) < 5" by simp
  have c: "(5::int) < int 16" by simp
  have g: "gen_chunk ?e 16 0 0 0 (replicate 16 0x55) [] (start {}) = (replicate 16 0x00, [], start {})"
    by (simp add: gen_chunk_def memset_def store_bytes_full)
  have d: "write_r ?e 0 0 (0 + 1) \<le> 0" by simp
  from partial_write_continues [OF a b c g, of 3 0] d show ?thesis
    by blast
qed

section \<open>The encrypted pattern\<close>

lemma cbc_lengths_lib_cbc: "cbc_lengths lib_cbc"
  by (simp add: cbc_lengths_def lib_cbc_def)

lemma encrypt_chunk_cbc:
  assumes lib: "cbc_lengths lib" and small: "len < 2 ^ 31"
  shows "fst (encrypt_chunk lib data len out key iv) = int (len div 16 * 16 + 16)"
proof -
  have inl: "int_of_size len = int len" by (rule int_of_size_small [OF small])
  from lib obtain c1 where c1: "update_r lib key iv data (int len) = Some c1"
      "length c1 = len div 16 * 16"
    unfolding cbc_lengths_def by (metis nat_int of_nat_0_le_iff)
  from lib obtain c2 where c2: "final_r lib key iv data (int len) = Some c2" "length c2 = 16"
    unfolding cbc_lengths_def by metis
  from lib have ok: "ctx_new_ok lib" "init_ok lib key iv"
    unfolding cbc_lengths_def by auto
  show ?thesis
    by (simp add: encrypt_chunk_def ok inl c1 c2 Let_def)
qed

lemma encrypt_chunk_failure:
  "fst (encrypt_chunk lib data len out key iv) = - 1 \<longleftrightarrow>
     (\<not> ctx_new_ok lib \<or> \<not> init_ok lib key iv
      \<or> update_r lib key iv data (int_of_size len) = None
      \<or> final_r lib key iv data (int_of_size len) = None)"
  by (auto simp: encrypt_chunk_def Let_def split: option.splits)

lemma gen_chunk_encrypted_copy:
  assumes lib: "cbc_lengths (evp_r e p 3 k)" and small: "chunk_size < 2 ^ 31"
    and cap: "length buf = chunk_size"
  shows "copies (trace (snd (snd (gen_chunk e chunk_size p 3 k buf outbuf s))))
           = copies (trace s) @ [(chunk_size div 16 * 16 + 16, chunk_size)]"
proof -
  have "fst (encrypt_chunk (evp_r e p 3 k) data chunk_size out key iv)
          = int (chunk_size div 16 * 16 + 16)" for data out key iv
    by (rule encrypt_chunk_cbc [OF lib small])
  then show ?thesis
    using cap
    by (simp add: gen_chunk_def rand_bytes_closed split_beta Let_def copies_def)
qed

text \<open>
  C1. The claim is that the ciphertext copied back into \<^verbatim>\<open>buf\<close> never exceeds the
  \<open>chunk_size\<close> bytes of \<^verbatim>\<open>buf\<close>. The code copies \<open>enc_size\<close> bytes, and by
  \<open>gen_chunk_encrypted_copy\<close> that is \<open>chunk_size div 16 * 16 + 16\<close>, more than
  \<open>chunk_size\<close>, whenever the cipher succeeds. Here the chunk generator runs with the
  chunk size of \<open>main\<close>, 512 MiB: the \<^verbatim>\<open>memcpy\<close> copies 536870928 bytes into a buffer of
  536870912.
\<close>

theorem encrypted_copy_exceeds_buffer:
  "copies (trace (snd (snd (gen_chunk test_env 536870912 0 3 0
       (replicate 536870912 0x00) (replicate 536870944 0x00) (start {})))))
     = [(536870928, 536870912)]
   \<and> length (replicate 536870912 (0x00 :: byte)) < 536870928"
proof -
  have lib: "cbc_lengths (evp_r test_env 0 3 0)"
    by (simp add: test_env_def cbc_lengths_lib_cbc)
  have small: "(536870912 :: nat) < 2 ^ 31" by simp
  have cap: "length (replicate 536870912 (0x00 :: byte)) = 536870912" by simp
  have "copies (trace (start {})) = []" by (simp add: start_def)
  with gen_chunk_encrypted_copy [OF lib small cap, of "replicate 536870944 0x00" "start {}"]
  show ?thesis by simp
qed

lemma upt_4: "[0..<4] = [0, 1, 2, 3]"
  by (simp add: upt_rec)

text \<open>
  C5, as amended. Under the pattern \<^verbatim>\<open>encrypted\<close> (index 3), when the cipher fails (no
  context, or init, update or final fails) the \<^verbatim>\<open>memcpy\<close> is skipped: \<^verbatim>\<open>buf\<close> holds the
  random bytes just drawn, and that chunk is passed to \<^verbatim>\<open>write\<close> all the same. The loop
  then goes on to the next chunk when \<^verbatim>\<open>write\<close> returns more than 0 and ends when it
  does not; nothing aborts the iteration.
\<close>

theorem cipher_failure_still_writes:
  assumes cap: "length buf = chunk_size"
    and bs: "rand_bytes e chunk_size s = (bs, s1)"
    and key: "rand_bytes e 32 s1 = (key, s2)"
    and iv: "rand_bytes e 16 s2 = (iv, s3)"
    and fail: "\<not> ctx_new_ok (evp_r e p 3 k) \<or> \<not> init_ok (evp_r e p 3 k) key iv
      \<or> update_r (evp_r e p 3 k) key iv bs (int_of_size chunk_size) = None
      \<or> final_r (evp_r e p 3 k) key iv bs (int_of_size chunk_size) = None"
    and out: "outbuf1 = snd (encrypt_chunk (evp_r e p 3 k) bs chunk_size outbuf key iv)"
  shows "gen_chunk e chunk_size p 3 k buf outbuf s = (bs, outbuf1, s3)
       \<and> write_loop e chunk_size p 3 fd k buf outbuf written s =
           (if write_r e p 3 k \<le> 0
            then Some (written, emit (Write fd bs chunk_size (write_r e p 3 k)) s3)
            else write_loop e chunk_size p 3 fd (k + 1) bs outbuf1
                   (written + of_int (write_r e p 3 k))
                   (emit (Write fd bs chunk_size (write_r e p 3 k)) s3))"
proof -
  have len: "length bs = chunk_size"
    using length_rand_bytes [of e chunk_size s] by (simp add: bs)
  have "fst (encrypt_chunk (evp_r e p 3 k) bs chunk_size outbuf key iv) = - 1"
    using fail by (simp add: encrypt_chunk_failure)
  then have enc: "encrypt_chunk (evp_r e p 3 k) bs chunk_size outbuf key iv = (- 1, outbuf1)"
    by (simp add: out prod_eq_iff)
  have g: "gen_chunk e chunk_size p 3 k buf outbuf s = (bs, outbuf1, s3)"
    by (simp add: gen_chunk_def bs key iv store_bytes_full len cap enc)
  show ?thesis
  proof (cases "write_r e p 3 k \<le> 0")
    case True
    then show ?thesis by (simp add: g write_loop_stop)
  next
    case False
    then have "0 < write_r e p 3 k" by simp
    from write_loop_step [OF this] False show ?thesis by (simp add: g)
  qed
qed

theorem cipher_failure_still_writes_witness:
  "gen_chunk env_cipher_fails 4 0 3 0 [0, 0, 0, 0] (replicate 36 0) (start {})
     = ([1, 2, 3, 4], replicate 36 0, (start {})\<lparr>rng_pos := 52\<rparr>)
   \<and> write_loop env_cipher_fails 4 0 3 3 0 [0, 0, 0, 0] (replicate 36 0) 0 (start {})
       = write_loop env_cipher_fails 4 0 3 3 (0 + 1) [1, 2, 3, 4] (replicate 36 0) (0 + of_int 4)
           (emit (Write 3 [1, 2, 3, 4] 4 4) ((start {})\<lparr>rng_pos := 52\<rparr>))"
proof -
  let ?e = env_cipher_fails
  let ?s1 = "snd (rand_bytes ?e 4 (start {}))"
  let ?key = "fst (rand_bytes ?e 32 ?s1)"
  let ?s2 = "snd (rand_bytes ?e 32 ?s1)"
  let ?iv = "fst (rand_bytes ?e 16 ?s2)"
  let ?s3 = "snd (rand_bytes ?e 16 ?s2)"
  have cap: "length [0, 0, 0, 0 :: byte] = 4" by simp
  have bs: "rand_bytes ?e 4 (start {}) = ([1, 2, 3, 4], ?s1)"
    by (simp add: rand_bytes_closed upt_4 start_def env_cipher_fails_def test_env_def)
  have key: "rand_bytes ?e 32 ?s1 = (?key, ?s2)" by simp
  have iv: "rand_bytes ?e 16 ?s2 = (?iv, ?s3)" by simp
  have fail: "\<not> ctx_new_ok (evp_r ?e 0 3 0) \<or> \<not> init_ok (evp_r ?e 0 3 0) ?key ?iv
      \<or> update_r (evp_r ?e 0 3 0) ?key ?iv [1, 2, 3, 4] (int_of_size 4) = None
      \<or> final_r (evp_r ?e 0 3 0) ?key ?iv [1, 2, 3, 4] (int_of_size 4) = None"
    by (simp add: env_cipher_fails_def lib_update_fails_def)
  have out: "replicate 36 0
       = snd (encrypt_chunk (evp_r ?e 0 3 0) [1, 2, 3, 4] 4 (replicate 36 0) ?key ?iv)"
    by (simp add: encrypt_chunk_def env_cipher_fails_def lib_update_fails_def lib_cbc_def)
  have s3: "?s3 = (start {})\<lparr>rng_pos := 52\<rparr>"
    by (simp add: rand_bytes_closed start_def)
  have w: "write_r ?e 0 3 0 = 4" by (simp add: env_cipher_fails_def)
  from cipher_failure_still_writes [OF cap bs key iv fail out, of 3 0] show ?thesis
    by (simp only: s3 w) simp
qed

lemma gen_chunk_cipher_fails_0:
  "gen_chunk env_cipher_fails 4 0 3 0 [0, 0, 0, 0] (replicate 36 0) (start {}) =
     ([1, 2, 3, 4], replicate 36 0, (start {})\<lparr>rng_pos := 52\<rparr>)"
  by (simp add: gen_chunk_def rand_bytes_closed upt_4 start_def env_cipher_fails_def test_env_def
      lib_update_fails_def lib_cbc_def encrypt_chunk_def store_bytes_def)

lemma gen_chunk_cipher_fails_1:
  "gen_chunk env_cipher_fails 4 0 3 (Suc 0) [1, 2, 3, 4] (replicate 36 0)
      (emit (Write 3 [1, 2, 3, 4] 4 4) ((start {})\<lparr>rng_pos := 52\<rparr>)) =
     ([53, 54, 55, 56], replicate 36 0,
      (emit (Write 3 [1, 2, 3, 4] 4 4) ((start {})\<lparr>rng_pos := 52\<rparr>))\<lparr>rng_pos := 104\<rparr>)"
  by (simp add: gen_chunk_def rand_bytes_closed upt_4 start_def env_cipher_fails_def test_env_def
      lib_update_fails_def lib_cbc_def encrypt_chunk_def store_bytes_def emit_def)

text \<open>
  The claim as stated (a chunk whose encryption failed is not written) fails: the cipher
  fails on the chunk \<open>[1, 2, 3, 4]\<close>, and the trace shows it written, 4 bytes of it.
\<close>

theorem cipher_failure_counterexample:
  "fst (encrypt_chunk (evp_r env_cipher_fails 0 3 0) [1, 2, 3, 4] 4 (replicate 36 0)
          (map of_nat [5..<37]) (map of_nat [37..<53])) = - 1
   \<and> write_loop env_cipher_fails 4 0 3 3 0 [0, 0, 0, 0] (replicate 36 0) 0 (start {}) =
       Some (4, \<lparr>rng_seed = 1, rng_pos = 104, files = {},
                 trace = [Write 3 [1, 2, 3, 4] 4 4, Write 3 [53, 54, 55, 56] 4 0]\<rparr>)"
proof -
  have w0: "0 < write_r env_cipher_fails 0 3 0"
    by (simp add: env_cipher_fails_def)
  have w1: "write_r env_cipher_fails 0 3 (0 + 1) \<le> 0"
    by (simp add: env_cipher_fails_def)
  have a: "fst (encrypt_chunk (evp_r env_cipher_fails 0 3 0) [1, 2, 3, 4] 4 (replicate 36 0)
          (map of_nat [5..<37]) (map of_nat [37..<53])) = - 1"
    by (simp add: encrypt_chunk_failure env_cipher_fails_def lib_update_fails_def)
  have v0: "write_r env_cipher_fails 0 3 0 = 4" "write_r env_cipher_fails 0 3 (Suc 0) = 0"
    by (simp_all add: env_cipher_fails_def)
  have b: "write_loop env_cipher_fails 4 0 3 3 0 [0, 0, 0, 0] (replicate 36 0) 0 (start {}) =
       Some (4, \<lparr>rng_seed = 1, rng_pos = 104, files = {},
                 trace = [Write 3 [1, 2, 3, 4] 4 4, Write 3 [53, 54, 55, 56] 4 0]\<rparr>)"
    apply (subst write_loop_step [OF w0])
    apply (simp only: gen_chunk_cipher_fails_0 prod.case)
    apply (subst write_loop_stop [OF w1])
    apply (simp add: gen_chunk_cipher_fails_1 v0)
    apply (simp add: emit_def start_def)
    done
  from a b show ?thesis by simp
qed

section \<open>The temporary file\<close>

text \<open>
  When the write loop is reached and ends, the file is closed and \<^verbatim>\<open>remove\<close> is called
  on it; when \<^verbatim>\<open>malloc\<close> fails after the file was created, the file is closed and
  stays.
\<close>

lemma iteration_alloc_failure:
  assumes "0 \<le> open_r e p pat" and "malloc_r e p pat 0 = None \<or> malloc_r e p pat 1 = None"
  shows "\<exists>s'. iteration e path chunk_size p pat s = Some s'
           \<and> temp_filename path p pat \<in> files s'
           \<and> removed (trace s') = removed (trace s)"
  using assms
  by (auto simp: iteration_def open_temp_def LOG_def ERR_def sys_open_def sys_close_def Let_def
      split: option.splits)

lemma iteration_completes:
  assumes opn: "0 \<le> open_r e p pat"
    and mb: "malloc_r e p pat 0 = Some b" and mo: "malloc_r e p pat 1 = Some ob"
    and stop: "write_r e p pat n \<le> 0"
  shows "\<exists>s'. iteration e path chunk_size p pat s = Some s'
           \<and> removed (trace s') = removed (trace s) @ [temp_filename path p pat]
           \<and> Close (open_r e p pat) \<in> set (trace s')
           \<and> (remove_r e p pat = 0 \<longrightarrow> temp_filename path p pat \<notin> files s')"
proof -
  obtain filename fd s2 where o: "open_temp e path p pat s = (filename, fd, s2)"
    by (cases "open_temp e path p pat s") auto
  note ob = open_temp_observed [OF o]
  from stop have "write_r e p pat (0 + n) \<le> 0" by simp
  from write_loop_terminates [OF this, of chunk_size fd "map b [0..<chunk_size]"
      "map ob [0..<(chunk_size + 32) mod 2 ^ 64]" 0 s2]
  obtain w s3 where
    w: "write_loop e chunk_size p pat fd 0 (map b [0..<chunk_size])
          (map ob [0..<(chunk_size + 32) mod 2 ^ 64]) 0 s2 = Some (w, s3)"
    and r: "removed (trace s3) = removed (trace s2)"
    by auto
  show ?thesis
    using opn mb mo w r
    by (simp add: iteration_def o ob(1,2) [symmetric] ob(5) Let_def LOG_def ERR_def
        sys_close_def sys_remove_def)
qed

text \<open>
  C6. The claim is that every iteration that created its file has removed it at its
  end. With \<^verbatim>\<open>open\<close> succeeding and \<^verbatim>\<open>malloc\<close> returning \<^verbatim>\<open>NULL\<close>, the iteration ends
  with the file still there and \<^verbatim>\<open>remove\<close> never called.
\<close>

theorem alloc_failure_leaves_temp_file:
  "iteration env_no_memory ''/mnt'' 16 0 0 (start {}) =
     Some \<lparr>rng_seed = 1, rng_pos = 0, files = {''/mnt/shred_temp_0_0.dat''},
           trace = [Log ''Writing pattern: zeros -> /mnt/shred_temp_0_0.dat'',
                    Open ''/mnt/shred_temp_0_0.dat'' [O_CREAT, O_WRONLY, O_TRUNC] 384 3,
                    Err ''Memory allocation failed'',
                    Close 3]\<rparr>"
  by (simp add: iteration_def open_temp_def temp_filename_def dec_int_def dec_str.simps Let_def
      env_no_memory_def test_env_def LOG_def ERR_def sys_open_def sys_close_def emit_def start_def)

text \<open>
  C9, as amended. Each iteration logs the pattern and calls \<^verbatim>\<open>open\<close> once, with the
  flags \<^verbatim>\<open>O_CREAT | O_WRONLY | O_TRUNC\<close> (no \<^verbatim>\<open>O_EXCL\<close>) and mode 0600; the name is
  \<^verbatim>\<open><path>/shred_temp_<p>_<pat>.dat\<close> whenever that name has at most 255 characters.
\<close>

theorem temp_file_open:
  assumes o: "open_temp e path p pat s = (filename, fd, s2)"
  shows "trace s2 = trace s
           @ [Log (''Writing pattern: '' @ patterns ! pat @ '' -> '' @ filename),
              Open filename [O_CREAT, O_WRONLY, O_TRUNC] 384 fd]
       \<and> fd = open_r e p pat
       \<and> (length path + length (dec_str p) + length (dec_str pat) + 17 \<le> 255 \<longrightarrow>
            filename = path @ ''/shred_temp_'' @ dec_str p @ ''_'' @ dec_str pat @ ''.dat'')"
  using o
  by (auto simp: open_temp_def temp_filename_def dec_int_def sys_open_def LOG_def Let_def)

theorem temp_file_open_witness:
  "trace (snd (snd (open_temp test_env ''/mnt'' 0 3 (start {})))) = trace (start {})
           @ [Log (''Writing pattern: '' @ patterns ! 3 @ '' -> '' @ ''/mnt/shred_temp_0_3.dat''),
              Open ''/mnt/shred_temp_0_3.dat'' [O_CREAT, O_WRONLY, O_TRUNC] 384 3]
   \<and> ''/mnt/shred_temp_0_3.dat''
        = ''/mnt'' @ ''/shred_temp_'' @ dec_str 0 @ ''_'' @ dec_str 3 @ ''.dat''"
proof -
  have o: "open_temp test_env ''/mnt'' 0 3 (start {}) =
      (''/mnt/shred_temp_0_3.dat'', 3,
       sys_open ''/mnt/shred_temp_0_3.dat'' [O_CREAT, O_WRONLY, O_TRUNC] 384 3
         (LOG (''Writing pattern: '' @ patterns ! 3 @ '' -> '' @ ''/mnt/shred_temp_0_3.dat'') (start {})))"
    by (simp add: open_temp_def temp_filename_def dec_int_def dec_str.simps test_env_def Let_def)
  have l: "length ''/mnt'' + length (dec_str 0) + length (dec_str 3) + 17 \<le> 255"
    by (simp add: dec_str.simps)
  from temp_file_open [OF o] l show ?thesis
    by (simp add: o)
qed

text \<open>
  The claim as stated fails: the mode is not exclusive. It also fails for a long path:
  \<^verbatim>\<open>snprintf\<close> fills \<^verbatim>\<open>char filename[256]\<close> and its result is not checked, so behind a
  path of 250 characters the name that is opened ends after \<^verbatim>\<open>/shre\<close>.
\<close>

theorem temp_file_open_counterexample:
  "open_temp test_env ''/mnt'' 0 3 (start {}) =
      (''/mnt/shred_temp_0_3.dat'', 3,
       \<lparr>rng_seed = 1, rng_pos = 0, files = {''/mnt/shred_temp_0_3.dat''},
        trace = [Log ''Writing pattern: encrypted -> /mnt/shred_temp_0_3.dat'',
                 Open ''/mnt/shred_temp_0_3.dat'' [O_CREAT, O_WRONLY, O_TRUNC] 384 3]\<rparr>)
   \<and> O_EXCL \<notin> set [O_CREAT, O_WRONLY, O_TRUNC]
   \<and> temp_filename (replicate 250 (CHR ''d'')) 0 3 = replicate 250 (CHR ''d'') @ ''/shre''
   \<and> temp_filename (replicate 250 (CHR ''d'')) 0 3
        \<noteq> replicate 250 (CHR ''d'') @ ''/shred_temp_0_3.dat''"
proof -
  have a: "open_temp test_env ''/mnt'' 0 3 (start {}) =
      (''/mnt/shred_temp_0_3.dat'', 3,
       \<lparr>rng_seed = 1, rng_pos = 0, files = {''/mnt/shred_temp_0_3.dat''},
        trace = [Log ''Writing pattern: encrypted -> /mnt/shred_temp_0_3.dat'',
                 Open ''/mnt/shred_temp_0_3.dat'' [O_CREAT, O_WRONLY, O_TRUNC] 384 3]\<rparr>)"
    by (simp add: open_temp_def temp_filename_def dec_int_def dec_str.simps test_env_def Let_def
        sys_open_def LOG_def emit_def start_def)
  have b: "temp_filename (replicate 250 (CHR ''d'')) 0 3 = replicate 250 (CHR ''d'') @ ''/shre''"
    by (simp add: temp_filename_def dec_int_def dec_str.simps)
  have "length (temp_filename (replicate 250 (CHR ''d'')) 0 3) = 255"
    by (simp add: b)
  moreover have "length (replicate 250 (CHR ''d'') @ ''/shred_temp_0_3.dat'') = 269"
    by simp
  ultimately have c: "temp_filename (replicate 250 (CHR ''d'')) 0 3
        \<noteq> replicate 250 (CHR ''d'') @ ''/shred_temp_0_3.dat''"
    by (metis numeral_eq_iff semiring_norm(88) semiring_norm(89) num.inject)
  from a b c show ?thesis by simp
qed

section \<open>The passes\<close>

lemma iteration_attempt:
  assumes stop: "\<exists>n. write_r e p pat n \<le> 0"
  shows "\<exists>s'. iteration e path chunk_size p pat s = Some s'
           \<and> opened (trace s') = opened (trace s) @ [temp_filename path p pat]"
proof -
  obtain filename fd s2 where o: "open_temp e path p pat s = (filename, fd, s2)"
    by (cases "open_temp e path p pat s") auto
  note ob = open_temp_observed [OF o]
  from stop obtain n where "write_r e p pat (0 + n) \<le> 0" by auto
  from write_loop_terminates [OF this]
  have w: "\<exists>w s3. write_loop e chunk_size p pat fd 0 buf outbuf 0 s2 = Some (w, s3)
             \<and> opened (trace s3) = opened (trace s2)" for buf outbuf
    by blast
  show ?thesis
  proof (cases "fd < 0")
    case True
    then show ?thesis
      by (simp add: iteration_def o ERR_def ob(3) ob(1) [symmetric])
  next
    case False
    show ?thesis
    proof (cases "malloc_r e p pat 0")
      case None
      with False show ?thesis
        by (simp add: iteration_def o ERR_def sys_close_def ob(3) ob(1) [symmetric])
    next
      case (Some b)
      note mb = this
      show ?thesis
      proof (cases "malloc_r e p pat 1")
        case None
        with False mb show ?thesis
          by (simp add: iteration_def o ERR_def sys_close_def ob(3) ob(1) [symmetric])
      next
        case (Some ob')
        from w [of "map b [0..<chunk_size]" "map ob' [0..<(chunk_size + 32) mod 2 ^ 64]"]
        obtain wr s3 where
          l: "write_loop e chunk_size p pat fd 0 (map b [0..<chunk_size])
                (map ob' [0..<(chunk_size + 32) mod 2 ^ 64]) 0 s2 = Some (wr, s3)"
          and t: "opened (trace s3) = opened (trace s2)"
          by blast
        from False mb Some l t show ?thesis
          by (simp add: iteration_def o Let_def LOG_def ERR_def sys_close_def sys_remove_def
              ob(3) ob(1) [symmetric])
      qed
    qed
  qed
qed

lemma pat_loop_attempts:
  assumes "\<forall>pat<4. \<exists>n. write_r e p pat n \<le> 0"
  shows "\<exists>s'. pat_loop e path chunk_size p pat s = Some s'
           \<and> opened (trace s') = opened (trace s) @ map (temp_filename path p) [pat..<4]"
  using assms
proof (induction e path chunk_size p pat s rule: pat_loop.induct)
  case (1 e path chunk_size p pat s)
  show ?case
  proof (cases "pat < 4")
    case False
    then show ?thesis by (simp add: pat_loop.simps)
  next
    case True
    with "1.prems" have "\<exists>n. write_r e p pat n \<le> 0" by blast
    from iteration_attempt [OF this] obtain s1 where
      i: "iteration e path chunk_size p pat s = Some s1"
      and t: "opened (trace s1) = opened (trace s) @ [temp_filename path p pat]"
      by blast
    from "1.IH" [OF True i "1.prems"] obtain s' where
      l: "pat_loop e path chunk_size p (pat + 1) s1 = Some s'"
      and t': "opened (trace s') = opened (trace s1) @ map (temp_filename path p) [pat + 1..<4]"
      by blast
    have "[pat..<4] = pat # [pat + 1..<4]"
      using True by (simp add: upt_conv_Cons)
    with l t t' True i show ?thesis
      by (subst pat_loop.simps) simp
  qed
qed

lemma pass_loop_attempts:
  assumes "\<forall>q pat. int q < passes \<longrightarrow> pat < 4 \<longrightarrow> (\<exists>n. write_r e q pat n \<le> 0)"
  shows "\<exists>s'. pass_loop e path passes chunk_size p s = Some s'
           \<and> opened (trace s') = opened (trace s)
                @ concat (map (\<lambda>q. map (temp_filename path q) [0..<4]) [p..<nat passes])"
  using assms
proof (induction e path passes chunk_size p s rule: pass_loop.induct)
  case (1 e path passes chunk_size p s)
  show ?case
  proof (cases "int p < passes")
    case False
    then show ?thesis by (simp add: pass_loop.simps)
  next
    case True
    let ?s1 = "LOG (''=== Pass '' @ dec_int (int p + 1) @ ''/'' @ dec_int passes @ '' ==='') s"
    from True "1.prems" have "\<forall>pat<4. \<exists>n. write_r e p pat n \<le> 0" by blast
    from pat_loop_attempts [OF this, of path chunk_size 0 ?s1] obtain s2 where
      i: "pat_loop e path chunk_size p 0 ?s1 = Some s2"
      and t: "opened (trace s2) = opened (trace ?s1) @ map (temp_filename path p) [0..<4]"
      by blast
    from "1.IH" [OF True refl i "1.prems"] obtain s' where
      l: "pass_loop e path passes chunk_size (p + 1) s2 = Some s'"
      and t': "opened (trace s') = opened (trace s2)
                @ concat (map (\<lambda>q. map (temp_filename path q) [0..<4]) [p + 1..<nat passes])"
      by blast
    have "[p..<nat passes] = p # [p + 1..<nat passes]"
      using True by (simp add: upt_conv_Cons)
    with l t t' True i show ?thesis
      by (subst pass_loop.simps) (simp add: LOG_def Let_def)
  qed
qed

lemma length_concat_fours: "length (concat (map (\<lambda>q. map (f q) [0..<4]) xs)) = length xs * 4"
  by (induction xs) simp_all

text \<open>
  C3, as amended. A run whose \<^verbatim>\<open>statvfs\<close> succeeds, with \<open>P\<close> passes, attempts exactly
  \<open>4 * P\<close> iterations: it returns, and the files it has tried to open are those of the
  four patterns of pass 0, then of pass 1, and so on up to pass \<open>P - 1\<close>. (Every write
  loop that is entered meets a \<^verbatim>\<open>write\<close> that returns 0 or less: the disk fills up.)
\<close>

theorem attempts_four_per_pass:
  assumes probe: "statvfs_r e path = Some fs"
    and full: "\<forall>p pat. p < P \<longrightarrow> pat < 4 \<longrightarrow> (\<exists>n. write_r e p pat n \<le> 0)"
  shows "\<exists>s'. wipe_free_space e path (int P) chunk_size s = Some s'
           \<and> opened (trace s') = opened (trace s)
                @ concat (map (\<lambda>p. map (temp_filename path p) [0..<4]) [0..<P])
           \<and> length (opened (trace s')) = length (opened (trace s)) + P * 4"
proof -
  obtain f_bsize f_bavail where fs: "fs = (f_bsize, f_bavail)" by (cases fs)
  let ?s1 = "LOG (''Detected free space: ''
      @ dec_str (unat ((f_bsize * f_bavail) div (1024 * 1024))) @ '' MB'') (emit (Statvfs path) s)"
  from full have "\<forall>q pat. int q < int P \<longrightarrow> pat < 4 \<longrightarrow> (\<exists>n. write_r e q pat n \<le> 0)"
    by simp
  from pass_loop_attempts [OF this, of path chunk_size 0 ?s1] obtain s2 where
    l: "pass_loop e path (int P) chunk_size 0 ?s1 = Some s2"
    and t: "opened (trace s2) = opened (trace ?s1)
              @ concat (map (\<lambda>q. map (temp_filename path q) [0..<4]) [0..<P])"
    by auto
  have "wipe_free_space e path (int P) chunk_size s
          = Some (LOG ([CHR 0xE2, CHR 0x9C, CHR 0x85] @ '' Free space wipe complete.'') s2)"
    using l by (simp add: wipe_free_space_def probe fs Let_def)
  moreover have "opened (trace (LOG ([CHR 0xE2, CHR 0x9C, CHR 0x85] @ '' Free space wipe complete.'') s2))
      = opened (trace s) @ concat (map (\<lambda>p. map (temp_filename path p) [0..<4]) [0..<P])"
    using t by (simp add: LOG_def)
  ultimately show ?thesis
    by (simp add: length_concat_fours)
qed

theorem attempts_four_per_pass_witness:
  "\<exists>s'. wipe_free_space test_env ''/mnt'' (int 3) 16 (start {}) = Some s'
           \<and> opened (trace s') = opened (trace (start {}))
                @ concat (map (\<lambda>p. map (temp_filename ''/mnt'' p) [0..<4]) [0..<3])
           \<and> length (opened (trace s')) = length (opened (trace (start {}))) + 3 * 4"
proof -
  have a: "statvfs_r test_env ''/mnt'' = Some (4096, 256000)"
    by (simp add: test_env_def)
  have "write_r test_env p pat 2 \<le> 0" for p pat
    by (simp add: test_env_def)
  then have b: "\<forall>p pat. p < 3 \<longrightarrow> pat < 4 \<longrightarrow> (\<exists>n. write_r test_env p pat n \<le> 0)"
    by blast
  show ?thesis
    by (rule attempts_four_per_pass [OF a b])
qed

text \<open>
  The claim as stated, for every run without a fatal configuration error, fails: a
  failed \<^verbatim>\<open>statvfs\<close> is no such error (the run ends with status 0), and then, with three
  passes asked for, none of the twelve iterations is attempted.
\<close>

theorem attempts_probe_failure_counterexample:
  "wipe_free_space env_no_statvfs ''/mnt'' (int 3) 16 (start {})
     = Some \<lparr>rng_seed = 1, rng_pos = 0, files = {},
             trace = [Statvfs ''/mnt'', Err ''statvfs failed'']\<rparr>
   \<and> length (opened [Statvfs ''/mnt'', Err ''statvfs failed'']) = 0
   \<and> (0 :: nat) \<noteq> 3 * 4
   \<and> write_r env_no_statvfs 0 0 2 = - 1"
  by (simp add: wipe_free_space_def env_no_statvfs_def test_env_def ERR_def emit_def start_def)

section \<open>Failures before the passes\<close>

text \<open>
  C2, as amended. When \<^verbatim>\<open>statvfs\<close> fails, \<open>wipe_free_space\<close> logs the failure and
  returns at once: no file is opened and nothing is written, whatever the number of
  passes; \<open>main\<close> still returns 0.
\<close>

theorem probe_failure_ends_run:
  assumes args: "2 \<le> length argv" and probe: "statvfs_r e (argv ! 1) = None"
  shows "wipe_free_space e (argv ! 1) passes chunk_size s0
           = Some (ERR ''statvfs failed'' (emit (Statvfs (argv ! 1)) s0))
       \<and> opened (trace (ERR ''statvfs failed'' (emit (Statvfs (argv ! 1)) s0))) = opened (trace s0)
       \<and> written_bufs (trace (ERR ''statvfs failed'' (emit (Statvfs (argv ! 1)) s0)))
           = written_bufs (trace s0)
       \<and> main e argv s
           = Some (0, ERR ''statvfs failed'' (emit (Statvfs (argv ! 1)) (srand (time_r e mod 2 ^ 32) s)))"
proof -
  have w: "wipe_free_space e (argv ! 1) passes chunk_size s0
           = Some (ERR ''statvfs failed'' (emit (Statvfs (argv ! 1)) s0))" for passes chunk_size s0
    using probe by (simp add: wipe_free_space_def)
  have m: "main e argv s
           = Some (0, ERR ''statvfs failed'' (emit (Statvfs (argv ! 1)) (srand (time_r e mod 2 ^ 32) s)))"
    using args probe by (simp add: main_def Let_def wipe_free_space_def)
  from w m show ?thesis
    by (simp add: ERR_def)
qed

theorem probe_failure_ends_run_witness:
  "wipe_free_space env_no_statvfs ([''shred'', ''/mnt''] ! 1) 3 16 (start {})
           = Some (ERR ''statvfs failed'' (emit (Statvfs ([''shred'', ''/mnt''] ! 1)) (start {})))
   \<and> main env_no_statvfs [''shred'', ''/mnt''] (start {})
           = Some (0, ERR ''statvfs failed'' (emit (Statvfs ([''shred'', ''/mnt''] ! 1))
                (srand (time_r env_no_statvfs mod 2 ^ 32) (start {}))))"
proof -
  have a: "2 \<le> length [''shred'', ''/mnt'']" by simp
  have b: "statvfs_r env_no_statvfs ([''shred'', ''/mnt''] ! 1) = None"
    by (simp add: env_no_statvfs_def)
  from probe_failure_ends_run [OF a b, of 3 16 "start {}" "start {}"] show ?thesis
    by blast
qed

text \<open>
  The claim as stated (all passes and patterns are still attempted) fails: with three
  passes asked for, the trace ends after the error message.
\<close>

theorem probe_failure_counterexample:
  "wipe_free_space env_no_statvfs ''/mnt'' 3 16 (start {})
     = Some \<lparr>rng_seed = 1, rng_pos = 0, files = {},
             trace = [Statvfs ''/mnt'', Err ''statvfs failed'']\<rparr>
   \<and> opened [Statvfs ''/mnt'', Err ''statvfs failed''] = []
   \<and> written_bufs [Statvfs ''/mnt'', Err ''statvfs failed''] = []"
  by (simp add: wipe_free_space_def env_no_statvfs_def ERR_def emit_def start_def)

lemma pass_loop_none: "passes \<le> 0 \<Longrightarrow> pass_loop e path passes chunk_size 0 s = Some s"
  by (simp add: pass_loop.simps)

text \<open>
  \<open>atoi\<close> beyond the range of \<^verbatim>\<open>int\<close>, the status of \<open>main\<close>, and the return of
  \<open>wipe_free_space\<close>.
\<close>

lemma atoi_out_of_range:
  "atoi ''-4294967295'' = 1 \<and> atoi ''2147483648'' = - 2147483648
   \<and> atoi ''99999999999999999999'' = - 1 \<and> atoi '' +12abc'' = 12"
  by (simp add: atoi_def strtol_def isspace_def isdigit_def)

lemma main_exit_status:
  assumes "2 \<le> length argv" and "main e argv s = Some (r, s')"
  shows "r = 0"
  using assms
  by (auto simp: main_def Let_def split: option.splits if_splits)

lemma wipe_free_space_returns:
  assumes "\<forall>p pat. int p < passes \<longrightarrow> pat < 4 \<longrightarrow> (\<exists>n. write_r e p pat n \<le> 0)"
  shows "\<exists>s'. wipe_free_space e path passes chunk_size s = Some s'"
proof (cases "statvfs_r e path")
  case None
  then show ?thesis by (simp add: wipe_free_space_def)
next
  case (Some fs)
  obtain f_bsize f_bavail where fs: "fs = (f_bsize, f_bavail)" by (cases fs)
  let ?s1 = "LOG (''Detected free space: ''
      @ dec_str (unat ((f_bsize * f_bavail) div (1024 * 1024))) @ '' MB'') (emit (Statvfs path) s)"
  from pass_loop_attempts [OF assms, of path chunk_size 0 ?s1] obtain s2 where
    "pass_loop e path passes chunk_size 0 ?s1 = Some s2"
    by blast
  then show ?thesis
    by (simp add: wipe_free_space_def Some fs Let_def)
qed

text \<open>
  C4, as amended. The pass count is not validated: it goes through \<open>atoi\<close>, and a run
  with a path is never rejected: whenever \<open>main\<close> returns, it returns 0, and it returns
  whenever the write loops of its passes end. When \<open>atoi\<close> gives 0 or less, as it does
  for an argument that is not a number, no pass is run: \<open>main\<close> opens no file, writes
  nothing and returns 0.
\<close>

theorem pass_count_not_validated:
  assumes args: "2 < length argv"
  shows "(\<forall>r s'. main e argv s = Some (r, s') \<longrightarrow> r = 0)
       \<and> ((\<forall>p pat. int p < atoi (argv ! 2) \<longrightarrow> pat < 4 \<longrightarrow> (\<exists>n. write_r e p pat n \<le> 0))
            \<longrightarrow> (\<exists>s'. main e argv s = Some (0, s')))
       \<and> (atoi (argv ! 2) \<le> 0 \<longrightarrow>
            (\<exists>s'. main e argv s = Some (0, s')
               \<and> opened (trace s') = opened (trace s)
               \<and> written_bufs (trace s') = written_bufs (trace s)
               \<and> files s' = files s))"
proof (intro conjI allI impI)
  fix r s'
  assume "main e argv s = Some (r, s')"
  with args show "r = 0"
    by (intro main_exit_status [of argv e s r s']) simp_all
next
  assume "\<forall>p pat. int p < atoi (argv ! 2) \<longrightarrow> pat < 4 \<longrightarrow> (\<exists>n. write_r e p pat n \<le> 0)"
  from wipe_free_space_returns [OF this, of "argv ! 1" "512 * 1024 * 1024"
      "srand (time_r e mod 2 ^ 32) s"]
  obtain s2 where "wipe_free_space e (argv ! 1) (atoi (argv ! 2)) (512 * 1024 * 1024)
      (srand (time_r e mod 2 ^ 32) s) = Some s2"
    by blast
  with args show "\<exists>s'. main e argv s = Some (0, s')"
    by (simp add: main_def Let_def)
next
  assume zero: "atoi (argv ! 2) \<le> 0"
  show "\<exists>s'. main e argv s = Some (0, s')
               \<and> opened (trace s') = opened (trace s)
               \<and> written_bufs (trace s') = written_bufs (trace s)
               \<and> files s' = files s"
  proof (cases "statvfs_r e (argv ! 1)")
    case None
    with args show ?thesis
      by (simp add: main_def wipe_free_space_def Let_def ERR_def srand_def)
  next
    case (Some fs)
    obtain f_bsize f_bavail where fs: "fs = (f_bsize, f_bavail)" by (cases fs)
    from args zero Some show ?thesis
      by (simp add: main_def wipe_free_space_def Let_def fs pass_loop_none LOG_def srand_def)
  qed
qed

theorem pass_count_not_validated_witness:
  "\<exists>s'. main test_env [''shred'', ''/mnt'', ''abc''] (start {}) = Some (0, s')
           \<and> opened (trace s') = opened (trace (start {}))
           \<and> written_bufs (trace s') = written_bufs (trace (start {}))
           \<and> files s' = files (start {})"
proof -
  have a: "2 < length [''shred'', ''/mnt'', ''abc'']" by simp
  have b: "atoi ([''shred'', ''/mnt'', ''abc''] ! 2) \<le> 0"
    by (simp add: atoi_def strtol_def isspace_def isdigit_def)
  from pass_count_not_validated [OF a, of test_env "start {}"] b show ?thesis
    by blast
qed

text \<open>
  The claim as stated (a non-numeric pass count is rejected with a failure status)
  fails: with \<^verbatim>\<open>abc\<close> the run goes through with no pass and returns 0. (And \<^verbatim>\<open>3x\<close>
  counts as 3.)
\<close>

theorem pass_count_counterexample:
  "main test_env [''shred'', ''/mnt'', ''abc''] (start {})
     = Some (0, \<lparr>rng_seed = 1700000000, rng_pos = 0, files = {},
                 trace = [Srand 1700000000, Statvfs ''/mnt'',
                          Log ''Detected free space: 1000 MB'',
                          Log ([CHR 0xE2, CHR 0x9C, CHR 0x85] @ '' Free space wipe complete.'')]\<rparr>)
   \<and> atoi ''abc'' = 0 \<and> atoi ''3x'' = 3"
proof -
  have a: "atoi ''abc'' = 0" "atoi ''3x'' = 3"
    by (simp_all add: atoi_def strtol_def isspace_def isdigit_def)
  have d: "dec_str 1000 = ''1000''"
    by (simp add: dec_str.simps)
  have f: "unat ((4096 :: size_t) * 256000 div (1024 * 1024)) = 1000"
    by simp
  have "main test_env [''shred'', ''/mnt'', ''abc''] (start {})
     = Some (0, \<lparr>rng_seed = 1700000000, rng_pos = 0, files = {},
                 trace = [Srand 1700000000, Statvfs ''/mnt'',
                          Log ''Detected free space: 1000 MB'',
                          Log ([CHR 0xE2, CHR 0x9C, CHR 0x85] @ '' Free space wipe complete.'')]\<rparr>)"
    using f
    by (simp add: main_def a wipe_free_space_def test_env_def pass_loop_none Let_def d
        LOG_def emit_def srand_def start_def)
  with a show ?thesis by simp
qed

end
